theory Spec2Isabelle
  imports Main "HOL-Library.Word"
begin

section \<open>JavaScript values\<close>

text \<open>
  A JavaScript string is a sequence of UTF-16 code units. Literals of the source are
  written \<open>js ''...''\<close>.
\<close>

type_synonym code_unit = "16 word"
type_synonym jsstring = "code_unit list"

definition js :: "string \<Rightarrow> jsstring" where
  "js s = map of_char s"

text \<open>
  The values that the fields of the settings object and the elements of its arrays take
  in this program: \<open>undefined\<close>, \<open>null\<close> and strings; and arrays of these, which
  an answer of the backend may hold under a key.
\<close>

datatype jsval = Undefined | Null | Str jsstring | Arr "jsval list"

text \<open>
  Truthiness, as \<open>||\<close>, \<open>!\<close> and \<open>if\<close> use it: the empty string is falsy, every
  array is truthy.
\<close>

fun truthy :: "jsval \<Rightarrow> bool" where
  "truthy Undefined = False"
| "truthy Null = False"
| "truthy (Str s) = (s \<noteq> [])"
| "truthy (Arr xs) = True"

text \<open>
  \<open>String.prototype.trim\<close> removes WhiteSpace and LineTerminator code units from both
  ends: TAB, LF, VT, FF, CR, SP, NBSP, the other space separators of Unicode (U+1680,
  U+2000 to U+200A, U+202F, U+205F, U+3000), LS, PS and the byte order mark.
\<close>

definition white_space :: "code_unit list" where
  "white_space =
     [0x0009, 0x000A, 0x000B, 0x000C, 0x000D, 0x0020, 0x00A0, 0x1680,
      0x2000, 0x2001, 0x2002, 0x2003, 0x2004, 0x2005, 0x2006, 0x2007, 0x2008, 0x2009, 0x200A,
      0x2028, 0x2029, 0x202F, 0x205F, 0x3000, 0xFEFF]"

definition is_white_space :: "code_unit \<Rightarrow> bool" where
  "is_white_space c \<longleftrightarrow> c \<in> set white_space"

definition trim :: "jsstring \<Rightarrow> jsstring" where
  "trim s = rev (dropWhile is_white_space (rev (dropWhile is_white_space s)))"

subsection \<open>Arrays\<close>

text \<open>
  \<open>xs.includes(v)\<close>: on strings, SameValueZero is equality of the code units. The page
  calls it with a string only, which no array equals.
\<close>

definition array_includes :: "jsval list \<Rightarrow> jsval \<Rightarrow> bool" where
  "array_includes xs v \<longleftrightarrow> v \<in> set xs"

text \<open>\<open>xs.filter((_, i) => p(i))\<close>: the callback sees the positions 0, 1, ...\<close>

definition filter_index :: "(nat \<Rightarrow> bool) \<Rightarrow> 'a list \<Rightarrow> 'a list" where
  "filter_index p xs = map snd (filter (\<lambda>(i, x). p i) (enumerate 0 xs))"

text \<open>
  Reading \<open>xs[i]\<close> outside the array gives \<open>undefined\<close>. Writing \<open>xs[i] = v\<close> at
  \<open>i = length\<close> or beyond extends the array (the positions in between are filled with
  \<open>undefined\<close> here; \<open>moveItem\<close> never writes beyond \<open>length\<close>), and at a negative
  \<open>i\<close> it sets a property that is not an element: the elements stay as they are, and
  the property is lost with the next copy of the array, which every handler makes.
\<close>

definition array_get :: "jsval list \<Rightarrow> int \<Rightarrow> jsval" where
  "array_get xs i = (if 0 \<le> i \<and> i < int (length xs) then xs ! nat i else Undefined)"

definition array_set :: "jsval list \<Rightarrow> int \<Rightarrow> jsval \<Rightarrow> jsval list" where
  "array_set xs i v =
     (if i < 0 then xs
      else if i < int (length xs) then xs[nat i := v]
      else xs @ replicate (nat i - length xs) Undefined @ [v])"

section \<open>The settings object\<close>

text \<open>
  The object that \<open>getDistrictSettings\<close> returns on success has the following keys.
  A key that is absent reads as \<open>undefined\<close>, like a key that holds \<open>undefined\<close>.
\<close>

record settings_data =
  primary_color :: jsval
  accent_color :: jsval
  logo_path :: jsval
  display_name :: jsval
  allowed_domain :: jsval
  soppa_statuses :: "jsval list"
  app_statuses :: "jsval list"
  app_tags :: "jsval list"
  custom_fields :: "(jsstring \<times> jsval) list"
  google_client_id :: jsval
  google_client_secret :: jsval
  apple_client_id :: jsval
  apple_team_id :: jsval
  apple_key_id :: jsval
  apple_private_key :: jsval
  microsoft_client_id :: jsval
  microsoft_tenant_id :: jsval
  microsoft_client_secret :: jsval

text \<open>
  The \<open>settings\<close> state of \<open>DistrictSettingsPage\<close> has these keys and, after a failed
  fetch, the key \<open>settings\<close> of the fallback object \<open>{ settings: {} }\<close>.
\<close>

record DistrictSettings = settings_data +
  settings_key :: bool

text \<open>The three list keys, \<open>'soppa_statuses' | 'app_statuses' | 'app_tags'\<close>.\<close>

datatype list_name = SoppaStatuses | AppStatuses | AppTags

text \<open>\<open>settings[list]\<close>\<close>

fun get_list :: "list_name \<Rightarrow> 'a settings_data_scheme \<Rightarrow> jsval list" where
  "get_list SoppaStatuses s = soppa_statuses s"
| "get_list AppStatuses s = app_statuses s"
| "get_list AppTags s = app_tags s"

text \<open>\<open>{ ...prev, [list]: v }\<close>\<close>

fun set_list :: "list_name \<Rightarrow> jsval list \<Rightarrow> DistrictSettings \<Rightarrow> DistrictSettings" where
  "set_list SoppaStatuses v prev = prev\<lparr>soppa_statuses := v\<rparr>"
| "set_list AppStatuses v prev = prev\<lparr>app_statuses := v\<rparr>"
| "set_list AppTags v prev = prev\<lparr>app_tags := v\<rparr>"

section \<open>The list handlers of the settings page\<close>

text \<open>
  The specification names a failure \<open>IndexOutOfRange\<close>. A handler that completes
  returns \<open>Inr\<close> of the new settings state. The handlers have no \<open>throw\<close>, and
  none of the array operations they use throws on an array.
\<close>

datatype error = IndexOutOfRange

datatype direction = Up | Down

text \<open>
  Each handler reads \<open>settings\<close>, the state of the render it was created in, for its
  guards, and queues an updater that React applies to \<open>prev\<close>, the state at that
  moment. A handler called from the current render has \<open>settings = prev\<close>.
\<close>

definition addItem ::
  "list_name \<Rightarrow> jsstring \<Rightarrow> DistrictSettings \<Rightarrow> DistrictSettings \<Rightarrow> error + DistrictSettings"
where
  "addItem list val settings prev =
     (if \<not> truthy (Str (trim val)) then Inr prev
      else if array_includes (get_list list settings) (Str (trim val)) then Inr prev
      else Inr (set_list list (get_list list prev @ [Str (trim val)]) prev))"

definition removeItem ::
  "list_name \<Rightarrow> int \<Rightarrow> DistrictSettings \<Rightarrow> error + DistrictSettings"
where
  "removeItem list index prev =
     Inr (set_list list (filter_index (\<lambda>i. int i \<noteq> index) (get_list list prev)) prev)"

text \<open>\<open>const newIndex = direction === 'up' ? index - 1 : index + 1\<close>\<close>

definition newIndex :: "int \<Rightarrow> direction \<Rightarrow> int" where
  "newIndex index dir = (if dir = Up then index - 1 else index + 1)"

text \<open>
  The destructuring assignment reads \<open>newList[newIndex]\<close> and \<open>newList[index]\<close>
  first, then writes \<open>newList[index]\<close>, then \<open>newList[newIndex]\<close>.
\<close>

definition moveItem ::
  "list_name \<Rightarrow> int \<Rightarrow> direction \<Rightarrow> DistrictSettings \<Rightarrow> DistrictSettings
     \<Rightarrow> error + DistrictSettings"
where
  "moveItem list index dir settings prev =
     (if newIndex index dir < 0 \<or> newIndex index dir \<ge> int (length (get_list list settings))
      then Inr prev
      else
        let newList = get_list list prev;
            a = array_get newList (newIndex index dir);
            b = array_get newList index;
            newList = array_set newList index a;
            newList = array_set newList (newIndex index dir) b
        in Inr (set_list list newList prev))"

text \<open>The initial value of the \<open>settings\<close> state (\<open>useState\<close>).\<close>

definition initial_settings :: DistrictSettings where
  "initial_settings =
     \<lparr>primary_color = Undefined, accent_color = Undefined, logo_path = Undefined,
      display_name = Undefined,
      allowed_domain = Str [],
      soppa_statuses = [],
      app_statuses = [],
      app_tags = [],
      custom_fields = [],
      google_client_id = Str [],
      google_client_secret = Str [],
      apple_client_id = Str [],
      apple_team_id = Str [],
      apple_key_id = Str [],
      apple_private_key = Str [],
      microsoft_client_id = Str [],
      microsoft_tenant_id = Str [],
      microsoft_client_secret = Str [],
      settings_key = False\<rparr>"

section \<open>Loading and saving\<close>

text \<open>What an \<open>await\<close> does: the promise is rejected, or it is fulfilled with a value.\<close>

datatype 'a awaited = Throws | Returns 'a

text \<open>
  A JSON object of the backend, read by key; an absent key reads as \<open>undefined\<close>.
\<close>

type_synonym json_object = "string \<Rightarrow> jsval"

text \<open>
  \<open>getDistrictSettings\<close> returns either the object with the eighteen keys, or,
  when the fetch or the reading of its body throws, the fallback \<open>{ settings: {} }\<close>.
\<close>

datatype settings_result = SettingsData settings_data | Fallback

definition getDistrictSettings :: "json_object awaited \<Rightarrow> settings_result" where
  "getDistrictSettings response =
     (case response of
        Throws \<Rightarrow> Fallback
      | Returns district \<Rightarrow>
          SettingsData
            \<lparr>primary_color = district ''primary_color'',
             accent_color = district ''accent_color'',
             logo_path = district ''logo_url'',
             display_name = district ''name'',
             allowed_domain = district ''allowed_domain'',
             soppa_statuses = [],
             app_statuses = [],
             app_tags = [],
             custom_fields = [],
             google_client_id = district ''google_client_id'',
             google_client_secret = district ''google_client_secret'',
             apple_client_id = district ''apple_client_id'',
             apple_team_id = district ''apple_team_id'',
             apple_key_id = district ''apple_key_id'',
             apple_private_key = district ''apple_private_key'',
             microsoft_client_id = district ''microsoft_client_id'',
             microsoft_tenant_id = district ''microsoft_tenant_id'',
             microsoft_client_secret = district ''microsoft_client_secret''\<rparr>)"

text \<open>
  The updater of \<open>loadData\<close>, \<open>{ ...prev, ...settingsData }\<close>: every key of
  \<open>settingsData\<close> replaces the key of \<open>prev\<close>.
\<close>

fun merge_settings :: "DistrictSettings \<Rightarrow> settings_result \<Rightarrow> DistrictSettings" where
  "merge_settings prev (SettingsData d) =
     prev\<lparr>primary_color := primary_color d,
          accent_color := accent_color d,
          logo_path := logo_path d,
          display_name := display_name d,
          allowed_domain := allowed_domain d,
          soppa_statuses := soppa_statuses d,
          app_statuses := app_statuses d,
          app_tags := app_tags d,
          custom_fields := custom_fields d,
          google_client_id := google_client_id d,
          google_client_secret := google_client_secret d,
          apple_client_id := apple_client_id d,
          apple_team_id := apple_team_id d,
          apple_key_id := apple_key_id d,
          apple_private_key := apple_private_key d,
          microsoft_client_id := microsoft_client_id d,
          microsoft_tenant_id := microsoft_tenant_id d,
          microsoft_client_secret := microsoft_client_secret d\<rparr>"
| "merge_settings prev Fallback = prev\<lparr>settings_key := True\<rparr>"

text \<open>
  The state of the page that loading and saving touch; \<open>navigated\<close> is the route of
  the last \<open>navigate\<close>. The input boxes and the logo upload have state of their own.
\<close>

datatype message_type = Success | Error

datatype message = Message (msg_type: message_type) (msg_text: jsval)

record page =
  isAuthorized :: bool
  loading :: bool
  saving :: bool
  justSaved :: bool
  message :: "message option"
  settings :: DistrictSettings
  navigated :: "jsstring option"

text \<open>The answer of \<open>/api/auth/me\<close>, as far as \<open>loadData\<close> reads it.\<close>

record user_data =
  authenticated :: bool
  role :: jsval

definition loadData :: "user_data awaited \<Rightarrow> json_object awaited \<Rightarrow> page \<Rightarrow> page" where
  "loadData user response p =
     (case user of
        Throws \<Rightarrow> p\<lparr>navigated := Some (js ''/login'')\<rparr>
      | Returns userData \<Rightarrow>
          if authenticated userData \<and> role userData = Str (js ''admin'') then
            p\<lparr>isAuthorized := True,
              settings := merge_settings (settings p) (getDistrictSettings response)\<rparr>
          else if authenticated userData then p\<lparr>navigated := Some (js ''/apps'')\<rparr>
          else p\<lparr>navigated := Some (js ''/login'')\<rparr>)
     \<lparr>loading := False\<rparr>"

text \<open>
  An answer of the backend to the request of \<open>getDistrictSettings\<close> that holds a list
  with a repeated value under the key \<open>soppa_statuses\<close>.
\<close>

definition district_with_lists :: json_object where
  "district_with_lists key =
     (if key = ''name'' then Str (js ''Local'')
      else if key = ''soppa_statuses'' then Arr [Str (js ''A''), Str (js ''A''), Str (js ''B'')]
      else Undefined)"

text \<open>
  The answer of the \<open>PUT\<close> request, as far as \<open>handleSave\<close> reads it. An answer
  that is not an object makes \<open>result.success\<close> throw, which is the case \<open>Throws\<close>.
\<close>

record save_result =
  success :: bool
  error :: jsval

text \<open>\<open>v || d\<close> for a string \<open>d\<close>.\<close>

definition or_else :: "jsval \<Rightarrow> jsstring \<Rightarrow> jsval" where
  "or_else v d = (if truthy v then v else Str d)"

text \<open>
  \<open>handleSave\<close> up to its \<open>await\<close>, and from there on. The timer that resets
  \<open>justSaved\<close> two seconds after a successful save is a later event.
\<close>

definition handleSave_begin :: "page \<Rightarrow> page" where
  "handleSave_begin p = p\<lparr>saving := True, message := None\<rparr>"

definition handleSave_settle :: "save_result awaited \<Rightarrow> page \<Rightarrow> page" where
  "handleSave_settle outcome p =
     (case outcome of
        Returns result \<Rightarrow>
          if success result then
            p\<lparr>justSaved := True,
              message := Some (Message Success (Str (js ''Settings saved successfully!'')))\<rparr>
          else
            p\<lparr>message := Some (Message Error (or_else (error result) (js ''Failed to save settings'')))\<rparr>
      | Throws \<Rightarrow>
          p\<lparr>message := Some (Message Error (Str (js ''Network error. Please try again.'')))\<rparr>)
     \<lparr>saving := False\<rparr>"

definition handleSave :: "save_result awaited \<Rightarrow> page \<Rightarrow> page" where
  "handleSave outcome p = handleSave_settle outcome (handleSave_begin p)"

section \<open>Masking of secrets by the backend\<close>

text \<open>The sentinel, as the settings page compares against it.\<close>

definition masking_sentinel :: jsstring where
  "masking_sentinel = js ''********''"

datatype secret_field = GoogleClientSecret | ApplePrivateKey | MicrosoftClientSecret

text \<open>
  Modelled from the spec: the serialisation of one stored secret by \<open>GET /settings\<close>.
  The Flask backend that implements it is not among the sources. A non-empty stored value
  is replaced with the sentinel.
\<close>

definition serialize_secret :: "jsstring \<Rightarrow> jsstring" where
  "serialize_secret stored = (if stored \<noteq> [] then masking_sentinel else stored)"

text \<open>
  Modelled from the spec: the handling of one incoming secret by \<open>PUT /settings\<close> in
  the Flask backend, which is not among the sources. The sentinel leaves the stored value
  untouched; any other value replaces it.
\<close>

definition accept_secret :: "jsstring \<Rightarrow> jsstring \<Rightarrow> jsstring" where
  "accept_secret incoming stored = (if incoming = masking_sentinel then stored else incoming)"

text \<open>
  Modelled from the spec: \<open>GET /settings\<close> and \<open>PUT /settings\<close> of the Flask backend
  on the three secret fields, field by field.
\<close>

definition get_settings :: "(secret_field \<Rightarrow> jsstring) \<Rightarrow> secret_field \<Rightarrow> jsstring" where
  "get_settings stored f = serialize_secret (stored f)"

definition put_settings ::
  "(secret_field \<Rightarrow> jsstring) \<Rightarrow> (secret_field \<Rightarrow> jsstring) \<Rightarrow> secret_field \<Rightarrow> jsstring"
where
  "put_settings incoming stored f = accept_secret (incoming f) (stored f)"

section \<open>Facts about the array operations\<close>

lemma filter_enumerate_skip:
  "map snd (filter (\<lambda>(i, x). i \<noteq> k) (enumerate n xs)) =
     (if n \<le> k \<and> k < n + length xs then take (k - n) xs @ drop (Suc (k - n)) xs else xs)"
proof (induction xs arbitrary: n)
  case Nil
  show ?case by simp
next
  case (Cons x xs)
  show ?case
  proof (cases "n = k")
    case True
    have "map snd (filter (\<lambda>(i, x). i \<noteq> k) (enumerate (Suc k) xs)) = xs"
      using Cons.IH [of "Suc k"] by simp
    with True show ?thesis by simp
  next
    case False
    show ?thesis
    proof (cases "n < k")
      case True
      then have "k - n = Suc (k - Suc n)" by simp
      with True show ?thesis
        using Cons.IH [of "Suc n"] by auto
    next
      case above: False
      with False show ?thesis
        using Cons.IH [of "Suc n"] by auto
    qed
  qed
qed

lemma filter_index_in_range:
  assumes "0 \<le> index" "index < int (length xs)"
  shows "filter_index (\<lambda>i. int i \<noteq> index) xs = take (nat index) xs @ drop (Suc (nat index)) xs"
proof -
  have "(\<lambda>i. int i \<noteq> index) = (\<lambda>i. i \<noteq> nat index)"
    using assms by (auto simp: fun_eq_iff)
  moreover have "nat index < length xs"
    using assms by simp
  ultimately show ?thesis
    using filter_enumerate_skip [of "nat index" 0 xs] by (simp add: filter_index_def)
qed

lemma filter_index_out_of_range:
  assumes "\<not> (0 \<le> index \<and> index < int (length xs))"
  shows "filter_index (\<lambda>i. int i \<noteq> index) xs = xs"
proof -
  have "filter (\<lambda>(i, x). int i \<noteq> index) (enumerate 0 xs) = enumerate 0 xs"
    using assms by (intro filter_True) (auto simp: in_set_enumerate_eq)
  then show ?thesis
    by (simp add: filter_index_def)
qed

lemma set_list_same: "set_list l (get_list l s) s = s"
  by (cases l) simp_all

lemma get_set_list: "get_list l' (set_list l v s) = (if l' = l then v else get_list l' s)"
  by (cases l; cases l') simp_all

lemma removeItem_eq:
  "removeItem l i s =
     Inr (if 0 \<le> i \<and> i < int (length (get_list l s))
          then set_list l (take (nat i) (get_list l s) @ drop (Suc (nat i)) (get_list l s)) s
          else s)"
  by (simp add: removeItem_def filter_index_in_range filter_index_out_of_range set_list_same)

section \<open>Removing an item\<close>

text \<open>
  C2, as the code has it: \<open>removeItem\<close> never fails. For an index outside
  \<open>[0, len)\<close> it completes and leaves the settings, and so the list, as they were; for
  an index inside it completes with the list without the element at that index.
\<close>

theorem removeItem_index_cases:
  "(\<not> (0 \<le> i \<and> i < int (length (get_list l s))) \<longrightarrow> removeItem l i s = Inr s) \<and>
   (0 \<le> i \<and> i < int (length (get_list l s)) \<longrightarrow>
      removeItem l i s =
        Inr (set_list l (take (nat i) (get_list l s) @ drop (Suc (nat i)) (get_list l s)) s))"
  by (simp add: removeItem_eq)

theorem removeItem_index_cases_witness:
  "\<not> (0 \<le> (5::int) \<and>
      5 < int (length (get_list AppTags
                (initial_settings\<lparr>app_tags := [Str (js ''A''), Str (js ''B'')]\<rparr>)))) \<and>
   removeItem AppTags 5 (initial_settings\<lparr>app_tags := [Str (js ''A''), Str (js ''B'')]\<rparr>) =
     Inr (initial_settings\<lparr>app_tags := [Str (js ''A''), Str (js ''B'')]\<rparr>) \<and>
   (0 \<le> (0::int) \<and>
      0 < int (length (get_list AppTags
                (initial_settings\<lparr>app_tags := [Str (js ''A''), Str (js ''B'')]\<rparr>)))) \<and>
   removeItem AppTags 0 (initial_settings\<lparr>app_tags := [Str (js ''A''), Str (js ''B'')]\<rparr>) =
     Inr (initial_settings\<lparr>app_tags := [Str (js ''B'')]\<rparr>)"
  using
    removeItem_index_cases
      [of 5 AppTags "initial_settings\<lparr>app_tags := [Str (js ''A''), Str (js ''B'')]\<rparr>"]
    removeItem_index_cases
      [of 0 AppTags "initial_settings\<lparr>app_tags := [Str (js ''A''), Str (js ''B'')]\<rparr>"]
  by simp

text \<open>
  The claim as the specification states it fails: index 5 is outside the one-element list,
  and \<open>removeItem\<close> completes with the settings unchanged instead of failing with
  \<open>IndexOutOfRange\<close>.
\<close>

theorem removeItem_out_of_range_counterexample:
  "\<not> (0 \<le> (5::int) \<and>
      5 < int (length (get_list SoppaStatuses
                (initial_settings\<lparr>soppa_statuses := [Str (js ''A'')]\<rparr>)))) \<and>
   removeItem SoppaStatuses 5 (initial_settings\<lparr>soppa_statuses := [Str (js ''A'')]\<rparr>)
     \<noteq> Inl IndexOutOfRange \<and>
   removeItem SoppaStatuses 5 (initial_settings\<lparr>soppa_statuses := [Str (js ''A'')]\<rparr>) =
     Inr (initial_settings\<lparr>soppa_statuses := [Str (js ''A'')]\<rparr>)"
  by (simp add: removeItem_def filter_index_def enumerate_eq_zip)

text \<open>
  C8: for an index \<open>i\<close> with \<open>0 \<le> i < len\<close>, \<open>removeItem\<close> yields a list that is one
  shorter and consists of the elements before position \<open>i\<close> followed by the elements
  after it, in their order.
\<close>

theorem removeItem_length_and_order:
  assumes "0 \<le> i" and "i < int (length (get_list l s))"
  shows "\<exists>s'. removeItem l i s = Inr s' \<and>
           length (get_list l s') = length (get_list l s) - 1 \<and>
           get_list l s' = take (nat i) (get_list l s) @ drop (Suc (nat i)) (get_list l s)"
proof -
  let ?xs = "get_list l s"
  let ?ys = "take (nat i) ?xs @ drop (Suc (nat i)) ?xs"
  have "removeItem l i s = Inr (set_list l ?ys s)"
    using assms by (simp add: removeItem_eq)
  moreover have "get_list l (set_list l ?ys s) = ?ys"
    by (simp add: get_set_list)
  moreover have "length ?ys = length ?xs - 1"
    using assms by (simp add: min_def)
  ultimately show ?thesis by simp
qed

theorem removeItem_length_and_order_witness:
  "0 \<le> (1::int) \<and>
   1 < int (length (get_list SoppaStatuses
         (initial_settings\<lparr>soppa_statuses := [Str (js ''A''), Str (js ''B''), Str (js ''C'')]\<rparr>))) \<and>
   (\<exists>s'. removeItem SoppaStatuses 1
           (initial_settings\<lparr>soppa_statuses := [Str (js ''A''), Str (js ''B''), Str (js ''C'')]\<rparr>)
         = Inr s' \<and>
      length (get_list SoppaStatuses s') = 2 \<and>
      get_list SoppaStatuses s' = [Str (js ''A''), Str (js ''C'')])"
proof -
  let ?s = "initial_settings\<lparr>soppa_statuses := [Str (js ''A''), Str (js ''B''), Str (js ''C'')]\<rparr>"
  have h1: "0 \<le> (1::int)" by simp
  have h2: "1 < int (length (get_list SoppaStatuses ?s))" by simp
  show ?thesis
    using h1 h2 removeItem_length_and_order [OF h1 h2] by auto
qed

section \<open>Adding an item\<close>

lemma addItem_eq:
  "addItem l v s s =
     Inr (if trim v = [] \<or> Str (trim v) \<in> set (get_list l s) then s
          else set_list l (get_list l s @ [Str (trim v)]) s)"
  by (simp add: addItem_def array_includes_def)

text \<open>
  C4: when the trimmed value is already an element of the list, \<open>addItem\<close> leaves the
  settings as they are; and whatever the first \<open>addItem\<close> of a value yields, a second
  \<open>addItem\<close> of the same value changes nothing, so the length stays.
\<close>

theorem addItem_present_unchanged:
  "(Str (trim v) \<in> set (get_list l s) \<longrightarrow> addItem l v s s = Inr s) \<and>
   (\<exists>s1. addItem l v s s = Inr s1 \<and> addItem l v s1 s1 = Inr s1 \<and>
      (\<forall>s2. addItem l v s1 s1 = Inr s2 \<longrightarrow>
         length (get_list l s2) = length (get_list l s1)))"
  by (simp add: addItem_eq get_set_list)

theorem addItem_present_unchanged_witness:
  "Str (trim (js '' Math'')) \<in>
     set (get_list SoppaStatuses (initial_settings\<lparr>soppa_statuses := [Str (js ''Math'')]\<rparr>)) \<and>
   addItem SoppaStatuses (js '' Math'')
       (initial_settings\<lparr>soppa_statuses := [Str (js ''Math'')]\<rparr>)
       (initial_settings\<lparr>soppa_statuses := [Str (js ''Math'')]\<rparr>) =
     Inr (initial_settings\<lparr>soppa_statuses := [Str (js ''Math'')]\<rparr>)"
proof -
  let ?s = "initial_settings\<lparr>soppa_statuses := [Str (js ''Math'')]\<rparr>"
  have h: "Str (trim (js '' Math'')) \<in> set (get_list SoppaStatuses ?s)"
    by (simp add: trim_def js_def is_white_space_def white_space_def)
  show ?thesis
    using h addItem_present_unchanged [of "js '' Math''" SoppaStatuses ?s] by blast
qed

text \<open>
  C5, as the code has it: \<open>addItem\<close> trims the value. When the trimmed value is empty,
  and also when it is already an element of the list, the settings stay as they are;
  otherwise the trimmed value is put at the end of the list, after the existing elements
  in their order.
\<close>

theorem addItem_trims_and_appends:
  "(trim v = [] \<longrightarrow> addItem l v s s = Inr s) \<and>
   (trim v \<noteq> [] \<and> Str (trim v) \<in> set (get_list l s) \<longrightarrow> addItem l v s s = Inr s) \<and>
   (trim v \<noteq> [] \<and> Str (trim v) \<notin> set (get_list l s) \<longrightarrow>
      addItem l v s s = Inr (set_list l (get_list l s @ [Str (trim v)]) s))"
  by (simp add: addItem_eq)

theorem addItem_trims_and_appends_witness:
  "trim (js ''   '') = [] \<and>
   addItem SoppaStatuses (js ''   '')
       (initial_settings\<lparr>soppa_statuses := [Str (js ''Math'')]\<rparr>)
       (initial_settings\<lparr>soppa_statuses := [Str (js ''Math'')]\<rparr>) =
     Inr (initial_settings\<lparr>soppa_statuses := [Str (js ''Math'')]\<rparr>) \<and>
   trim (js ''  Science  '') \<noteq> [] \<and>
   Str (trim (js ''  Science  '')) \<notin>
     set (get_list SoppaStatuses (initial_settings\<lparr>soppa_statuses := [Str (js ''Math'')]\<rparr>)) \<and>
   addItem SoppaStatuses (js ''  Science  '')
       (initial_settings\<lparr>soppa_statuses := [Str (js ''Math'')]\<rparr>)
       (initial_settings\<lparr>soppa_statuses := [Str (js ''Math'')]\<rparr>) =
     Inr (initial_settings\<lparr>soppa_statuses := [Str (js ''Math''), Str (js ''Science'')]\<rparr>)"
proof -
  let ?s = "initial_settings\<lparr>soppa_statuses := [Str (js ''Math'')]\<rparr>"
  have e: "trim (js ''   '') = []"
    by (simp add: trim_def js_def is_white_space_def white_space_def)
  have t: "trim (js ''  Science  '') = js ''Science''"
    by (simp add: trim_def js_def is_white_space_def white_space_def)
  have n: "trim (js ''  Science  '') \<noteq> []"
    unfolding t by (simp add: js_def)
  have a: "Str (trim (js ''  Science  '')) \<notin> set (get_list SoppaStatuses ?s)"
    unfolding t by (simp add: js_def)
  have "addItem SoppaStatuses (js ''   '') ?s ?s = Inr ?s"
    using e addItem_trims_and_appends [of "js ''   ''" SoppaStatuses ?s] by blast
  moreover have "addItem SoppaStatuses (js ''  Science  '') ?s ?s =
      Inr (set_list SoppaStatuses (get_list SoppaStatuses ?s @ [Str (trim (js ''  Science  ''))]) ?s)"
    using n a addItem_trims_and_appends [of "js ''  Science  ''" SoppaStatuses ?s] by blast
  ultimately show ?thesis
    using e n a by (simp add: t)
qed

text \<open>
  The claim as the specification states it fails where the trimmed value is not empty and
  already in the list: \<open>addItem\<close> of \<open>Math\<close> to the list \<open>[Math]\<close> leaves \<open>[Math]\<close>,
  it does not yield \<open>[Math, Math]\<close>.
\<close>

theorem addItem_duplicate_counterexample:
  "trim (js ''Math'') \<noteq> [] \<and>
   addItem SoppaStatuses (js ''Math'')
       (initial_settings\<lparr>soppa_statuses := [Str (js ''Math'')]\<rparr>)
       (initial_settings\<lparr>soppa_statuses := [Str (js ''Math'')]\<rparr>) =
     Inr (initial_settings\<lparr>soppa_statuses := [Str (js ''Math'')]\<rparr>) \<and>
   addItem SoppaStatuses (js ''Math'')
       (initial_settings\<lparr>soppa_statuses := [Str (js ''Math'')]\<rparr>)
       (initial_settings\<lparr>soppa_statuses := [Str (js ''Math'')]\<rparr>) \<noteq>
     Inr (initial_settings\<lparr>soppa_statuses := [Str (js ''Math''), Str (js ''Math'')]\<rparr>)"
  by (simp add: addItem_def array_includes_def trim_def js_def is_white_space_def
      white_space_def initial_settings_def)

section \<open>Moving an item\<close>

lemma moveItem_total: "\<exists>s'. moveItem l i d s s = Inr s'"
  by (simp add: moveItem_def Let_def)

lemma moveItem_outside:
  assumes "\<not> (0 \<le> newIndex i d \<and> newIndex i d < int (length (get_list l s)))"
  shows "moveItem l i d s s = Inr s"
  using assms by (auto simp: moveItem_def Let_def)

lemma moveItem_swap:
  assumes "0 \<le> newIndex i d" "newIndex i d < int (length (get_list l s))"
    and "0 \<le> i" "i < int (length (get_list l s))"
  shows "moveItem l i d s s =
     Inr (set_list l ((get_list l s)[nat i := get_list l s ! nat (newIndex i d),
                                     nat (newIndex i d) := get_list l s ! nat i]) s)"
  using assms by (auto simp: moveItem_def Let_def array_get_def array_set_def)

text \<open>
  The two calls that pass the guard with an index that is no position of the list: the
  element next to the index is overwritten with \<open>undefined\<close>.
\<close>

lemma moveItem_before_first:
  assumes "get_list l s \<noteq> []"
  shows "moveItem l (- 1) Down s s = Inr (set_list l ((get_list l s)[0 := Undefined]) s)"
  using assms by (auto simp: moveItem_def newIndex_def Let_def array_get_def array_set_def)

lemma moveItem_after_last:
  assumes "get_list l s \<noteq> []"
  shows "moveItem l (int (length (get_list l s))) Up s s =
     Inr (set_list l
            ((get_list l s)[length (get_list l s) - 1 := Undefined] @ [last (get_list l s)]) s)"
  using assms
  by (auto simp: moveItem_def newIndex_def Let_def array_get_def array_set_def list_update_append
      last_conv_nth nat_diff_distrib')

lemma moveItem_cases:
  obtains
    (outside) "\<not> (0 \<le> newIndex i d \<and> newIndex i d < int (length (get_list l s)))"
  | (swap) "0 \<le> newIndex i d" "newIndex i d < int (length (get_list l s))"
      "0 \<le> i" "i < int (length (get_list l s))"
  | (before_first) "i = - 1" "d = Down" "get_list l s \<noteq> []"
  | (after_last) "i = int (length (get_list l s))" "d = Up" "get_list l s \<noteq> []"
  by (cases d) (auto simp: newIndex_def, (force | linarith)+)

text \<open>
  C6, as the code has it: for an index inside \<open>[0, len)\<close> whose neighbour (\<open>index - 1\<close>
  for up, \<open>index + 1\<close> for down) is inside \<open>[0, len)\<close> too, \<open>moveItem\<close> exchanges the
  two elements and leaves every other element in place; for any index whose neighbour is
  outside \<open>[0, len)\<close> it completes with the settings unchanged.
\<close>

theorem moveItem_swaps_or_stays:
  "(0 \<le> i \<and> i < int (length (get_list l s)) \<and>
    0 \<le> newIndex i d \<and> newIndex i d < int (length (get_list l s)) \<longrightarrow>
      moveItem l i d s s =
        Inr (set_list l ((get_list l s)[nat i := get_list l s ! nat (newIndex i d),
                                        nat (newIndex i d) := get_list l s ! nat i]) s)) \<and>
   (\<not> (0 \<le> newIndex i d \<and> newIndex i d < int (length (get_list l s))) \<longrightarrow>
      moveItem l i d s s = Inr s)"
  using moveItem_swap [of i d l s] moveItem_outside [of i d l s] by blast

theorem moveItem_swaps_or_stays_witness:
  "(0 \<le> (0::int) \<and>
    0 < int (length (get_list AppStatuses
          (initial_settings\<lparr>app_statuses := [Str (js ''A''), Str (js ''B''), Str (js ''C'')]\<rparr>))) \<and>
    0 \<le> newIndex 0 Down \<and>
    newIndex 0 Down < int (length (get_list AppStatuses
          (initial_settings\<lparr>app_statuses := [Str (js ''A''), Str (js ''B''), Str (js ''C'')]\<rparr>)))) \<and>
   moveItem AppStatuses 0 Down
       (initial_settings\<lparr>app_statuses := [Str (js ''A''), Str (js ''B''), Str (js ''C'')]\<rparr>)
       (initial_settings\<lparr>app_statuses := [Str (js ''A''), Str (js ''B''), Str (js ''C'')]\<rparr>) =
     Inr (initial_settings\<lparr>app_statuses := [Str (js ''B''), Str (js ''A''), Str (js ''C'')]\<rparr>) \<and>
   \<not> (0 \<le> newIndex 0 Up \<and>
      newIndex 0 Up < int (length (get_list AppStatuses
          (initial_settings\<lparr>app_statuses := [Str (js ''A''), Str (js ''B'')]\<rparr>)))) \<and>
   moveItem AppStatuses 0 Up
       (initial_settings\<lparr>app_statuses := [Str (js ''A''), Str (js ''B'')]\<rparr>)
       (initial_settings\<lparr>app_statuses := [Str (js ''A''), Str (js ''B'')]\<rparr>) =
     Inr (initial_settings\<lparr>app_statuses := [Str (js ''A''), Str (js ''B'')]\<rparr>)"
  using
    moveItem_swaps_or_stays
      [of 0 AppStatuses
        "initial_settings\<lparr>app_statuses := [Str (js ''A''), Str (js ''B''), Str (js ''C'')]\<rparr>" Down]
    moveItem_swaps_or_stays
      [of 0 AppStatuses "initial_settings\<lparr>app_statuses := [Str (js ''A''), Str (js ''B'')]\<rparr>" Up]
  by (simp add: newIndex_def)

text \<open>
  The claim as the specification states it fails at the index \<open>-1\<close>, direction down: the
  neighbour position 0 is inside the list \<open>[A, B]\<close>, and \<open>moveItem\<close> yields
  \<open>[undefined, B]\<close>. Nothing was exchanged, and \<open>A\<close> is no longer in the list.
\<close>

theorem moveItem_index_before_first_counterexample:
  "0 \<le> newIndex (- 1) Down \<and>
   newIndex (- 1) Down < int (length (get_list SoppaStatuses
       (initial_settings\<lparr>soppa_statuses := [Str (js ''A''), Str (js ''B'')]\<rparr>))) \<and>
   moveItem SoppaStatuses (- 1) Down
       (initial_settings\<lparr>soppa_statuses := [Str (js ''A''), Str (js ''B'')]\<rparr>)
       (initial_settings\<lparr>soppa_statuses := [Str (js ''A''), Str (js ''B'')]\<rparr>) =
     Inr (initial_settings\<lparr>soppa_statuses := [Undefined, Str (js ''B'')]\<rparr>) \<and>
   Str (js ''A'') \<notin> set [Undefined, Str (js ''B'')]"
  by (simp add: moveItem_def newIndex_def array_get_def array_set_def js_def)

section \<open>No duplicates\<close>

lemma distinct_skip: "distinct xs \<Longrightarrow> distinct (take n xs @ drop (Suc n) xs)"
  using set_take_disj_set_drop_if_distinct [of xs n "Suc n"] by simp

lemma get_set_list_same: "get_list l (set_list l v s) = v"
  by (simp add: get_set_list)

lemma last_update_distinct:
  assumes "distinct xs" "xs \<noteq> []" "Undefined \<notin> set xs"
  shows "distinct (xs[length xs - 1 := Undefined] @ [last xs])"
proof -
  have "distinct (xs[length xs - 1 := Undefined])"
    using assms by (simp add: distinct_list_update)
  moreover have "last xs \<notin> set (xs[length xs - 1 := Undefined])"
  proof -
    have "xs = butlast xs @ [last xs]" using assms(2) by simp
    then have "xs[length xs - 1 := Undefined] = butlast xs @ [Undefined]"
      by (metis length_butlast list_update_length)
    moreover have "last xs \<notin> set (butlast xs)"
      using assms(1,2) distinct_append [of "butlast xs" "[last xs]"] by simp
    moreover have "last xs \<noteq> Undefined"
      using assms(2,3) by (metis last_in_set)
    ultimately show ?thesis by simp
  qed
  ultimately show ?thesis by simp
qed

text \<open>
  C7, as the code has it: when one of the three lists has no duplicate value, it has none
  after \<open>addItem\<close> and after \<open>removeItem\<close> on any of the lists \<open>l\<close>, for every value
  and every index; after \<open>moveItem\<close> it has none when the index is a position of the
  list \<open>l\<close>, or when no element of the list is \<open>undefined\<close>. Each of the handlers
  completes.
\<close>

theorem mutations_keep_distinct:
  assumes "distinct (get_list l' s)"
  shows "(\<exists>s'. addItem l v s s = Inr s' \<and> distinct (get_list l' s')) \<and>
         (\<exists>s'. removeItem l i s = Inr s' \<and> distinct (get_list l' s')) \<and>
         (Undefined \<notin> set (get_list l' s) \<or> (0 \<le> i \<and> i < int (length (get_list l s))) \<longrightarrow>
            (\<exists>s'. moveItem l i d s s = Inr s' \<and> distinct (get_list l' s')))"
proof (intro conjI impI)
  show "\<exists>s'. addItem l v s s = Inr s' \<and> distinct (get_list l' s')"
    using assms by (auto simp: addItem_eq get_set_list)
next
  show "\<exists>s'. removeItem l i s = Inr s' \<and> distinct (get_list l' s')"
  proof (cases "l' = l")
    case True
    let ?ys = "take (nat i) (get_list l s) @ drop (Suc (nat i)) (get_list l s)"
    have "distinct ?ys"
      using assms True by (intro distinct_skip) simp
    then have "distinct (get_list l' (set_list l ?ys s))"
      using True by (simp only: get_set_list_same)
    then show ?thesis
      using assms by (simp add: removeItem_eq)
  next
    case False
    then show ?thesis
      using assms by (simp add: removeItem_eq get_set_list)
  qed
next
  assume side: "Undefined \<notin> set (get_list l' s) \<or> (0 \<le> i \<and> i < int (length (get_list l s)))"
  show "\<exists>s'. moveItem l i d s s = Inr s' \<and> distinct (get_list l' s')"
  proof (cases "l' = l")
    case False
    obtain s' where s': "moveItem l i d s s = Inr s'"
      using moveItem_total by blast
    then have "get_list l' s' = get_list l' s"
      using False by (auto simp: moveItem_def Let_def get_set_list split: if_splits)
    with s' assms show ?thesis by simp
  next
    case True
    let ?xs = "get_list l s"
    have dist: "distinct ?xs" using assms True by simp
    show ?thesis
    proof (cases rule: moveItem_cases [of i d l s])
      case outside
      then show ?thesis
        using assms by (simp add: moveItem_outside)
    next
      case swap
      then show ?thesis
        using dist True by (simp add: moveItem_swap get_set_list distinct_swap)
    next
      case before_first
      with side True have "Undefined \<notin> set ?xs" by auto
      then have "distinct (?xs[0 := Undefined])"
        using dist by (simp add: distinct_list_update)
      then show ?thesis
        using before_first True by (simp add: moveItem_before_first get_set_list)
    next
      case after_last
      with side True have "Undefined \<notin> set ?xs" by auto
      then have "distinct (?xs[length ?xs - 1 := Undefined] @ [last ?xs])"
        using dist after_last(3) by (intro last_update_distinct)
      then show ?thesis
        using after_last True by (simp add: moveItem_after_last get_set_list)
    qed
  qed
qed

theorem mutations_keep_distinct_witness:
  "distinct (get_list AppTags (initial_settings\<lparr>app_tags := [Str (js ''A''), Str (js ''B'')]\<rparr>)) \<and>
   Undefined \<notin> set (get_list AppTags (initial_settings\<lparr>app_tags := [Str (js ''A''), Str (js ''B'')]\<rparr>)) \<and>
   0 \<le> (0::int) \<and>
   0 < int (length (get_list AppTags (initial_settings\<lparr>app_tags := [Str (js ''A''), Str (js ''B'')]\<rparr>))) \<and>
   (\<exists>s'. addItem AppTags (js ''C'') (initial_settings\<lparr>app_tags := [Str (js ''A''), Str (js ''B'')]\<rparr>)
            (initial_settings\<lparr>app_tags := [Str (js ''A''), Str (js ''B'')]\<rparr>) = Inr s' \<and>
          distinct (get_list AppTags s')) \<and>
   (\<exists>s'. removeItem AppTags 0 (initial_settings\<lparr>app_tags := [Str (js ''A''), Str (js ''B'')]\<rparr>) = Inr s' \<and>
          distinct (get_list AppTags s')) \<and>
   (\<exists>s'. moveItem AppTags 0 Down (initial_settings\<lparr>app_tags := [Str (js ''A''), Str (js ''B'')]\<rparr>)
            (initial_settings\<lparr>app_tags := [Str (js ''A''), Str (js ''B'')]\<rparr>) = Inr s' \<and>
          distinct (get_list AppTags s'))"
proof -
  let ?s = "initial_settings\<lparr>app_tags := [Str (js ''A''), Str (js ''B'')]\<rparr>"
  have h: "distinct (get_list AppTags ?s)"
    by (simp add: js_def)
  have u: "Undefined \<notin> set (get_list AppTags ?s)"
    by simp
  have i: "0 \<le> (0::int)" "0 < int (length (get_list AppTags ?s))"
    by simp_all
  show ?thesis
    using h u i mutations_keep_distinct [OF h, of AppTags "js ''C''" 0 Down] by blast
qed

text \<open>
  The claim as the specification states it fails for \<open>moveItem\<close>. From \<open>[A, B]\<close>, index
  2 up gives \<open>[A, undefined, B]\<close>, which has no duplicate value; from there index
  \<open>-1\<close> down gives \<open>[undefined, undefined, B]\<close>, which has one.
\<close>

theorem moveItem_duplicates_undefined_counterexample:
  "moveItem AppStatuses 2 Up
       (initial_settings\<lparr>app_statuses := [Str (js ''A''), Str (js ''B'')]\<rparr>)
       (initial_settings\<lparr>app_statuses := [Str (js ''A''), Str (js ''B'')]\<rparr>) =
     Inr (initial_settings\<lparr>app_statuses := [Str (js ''A''), Undefined, Str (js ''B'')]\<rparr>) \<and>
   distinct (get_list AppStatuses
       (initial_settings\<lparr>app_statuses := [Str (js ''A''), Undefined, Str (js ''B'')]\<rparr>)) \<and>
   moveItem AppStatuses (- 1) Down
       (initial_settings\<lparr>app_statuses := [Str (js ''A''), Undefined, Str (js ''B'')]\<rparr>)
       (initial_settings\<lparr>app_statuses := [Str (js ''A''), Undefined, Str (js ''B'')]\<rparr>) =
     Inr (initial_settings\<lparr>app_statuses := [Undefined, Undefined, Str (js ''B'')]\<rparr>) \<and>
   \<not> distinct (get_list AppStatuses
       (initial_settings\<lparr>app_statuses := [Undefined, Undefined, Str (js ''B'')]\<rparr>))"
  by (simp add: moveItem_def newIndex_def array_get_def array_set_def js_def)

section \<open>What the list handlers leave alone\<close>

lemma mutation_shape:
  assumes "r = addItem l v s s \<or> r = removeItem l i s \<or> r = moveItem l i d s s"
  shows "\<exists>xs. r = Inr (set_list l xs s)"
proof -
  have "addItem l v s s =
      Inr (set_list l (if trim v = [] \<or> Str (trim v) \<in> set (get_list l s) then get_list l s
                       else get_list l s @ [Str (trim v)]) s)"
    by (simp add: addItem_eq set_list_same)
  then have "\<exists>xs. addItem l v s s = Inr (set_list l xs s)" ..
  moreover have "\<exists>xs. removeItem l i s = Inr (set_list l xs s)"
    unfolding removeItem_def by (rule exI) (rule refl)
  moreover have "\<exists>xs. moveItem l i d s s = Inr (set_list l xs s)"
  proof (cases "newIndex i d < 0 \<or> newIndex i d \<ge> int (length (get_list l s))")
    case True
    then have "moveItem l i d s s = Inr (set_list l (get_list l s) s)"
      by (simp add: moveItem_def set_list_same)
    then show ?thesis ..
  next
    case False
    then show ?thesis
      by (simp add: moveItem_def Let_def) blast
  qed
  ultimately show ?thesis
    using assms by blast
qed

text \<open>
  C10: a result \<open>r\<close> of \<open>addItem\<close>, \<open>removeItem\<close> or \<open>moveItem\<close> on the list \<open>l\<close>
  is a settings state in which the other two lists and every other key are as before.
\<close>

theorem mutations_frame:
  assumes "r = addItem l v s s \<or> r = removeItem l i s \<or> r = moveItem l i d s s"
  shows "\<exists>s'. r = Inr s' \<and>
           (\<forall>l'. l' \<noteq> l \<longrightarrow> get_list l' s' = get_list l' s) \<and>
           allowed_domain s' = allowed_domain s \<and>
           primary_color s' = primary_color s \<and>
           accent_color s' = accent_color s \<and>
           logo_path s' = logo_path s \<and>
           display_name s' = display_name s \<and>
           custom_fields s' = custom_fields s \<and>
           google_client_id s' = google_client_id s \<and>
           google_client_secret s' = google_client_secret s \<and>
           apple_client_id s' = apple_client_id s \<and>
           apple_team_id s' = apple_team_id s \<and>
           apple_key_id s' = apple_key_id s \<and>
           apple_private_key s' = apple_private_key s \<and>
           microsoft_client_id s' = microsoft_client_id s \<and>
           microsoft_tenant_id s' = microsoft_tenant_id s \<and>
           microsoft_client_secret s' = microsoft_client_secret s \<and>
           settings_key s' = settings_key s"
proof -
  obtain xs where r: "r = Inr (set_list l xs s)"
    using mutation_shape [OF assms] by blast
  have "\<forall>l'. l' \<noteq> l \<longrightarrow> get_list l' (set_list l xs s) = get_list l' s"
    by (simp add: get_set_list)
  moreover have "allowed_domain (set_list l xs s) = allowed_domain s"
    and "primary_color (set_list l xs s) = primary_color s"
    and "accent_color (set_list l xs s) = accent_color s"
    and "logo_path (set_list l xs s) = logo_path s"
    and "display_name (set_list l xs s) = display_name s"
    and "custom_fields (set_list l xs s) = custom_fields s"
    and "google_client_id (set_list l xs s) = google_client_id s"
    and "google_client_secret (set_list l xs s) = google_client_secret s"
    by (cases l; simp)+
  moreover have "apple_client_id (set_list l xs s) = apple_client_id s"
    and "apple_team_id (set_list l xs s) = apple_team_id s"
    and "apple_key_id (set_list l xs s) = apple_key_id s"
    and "apple_private_key (set_list l xs s) = apple_private_key s"
    and "microsoft_client_id (set_list l xs s) = microsoft_client_id s"
    and "microsoft_tenant_id (set_list l xs s) = microsoft_tenant_id s"
    and "microsoft_client_secret (set_list l xs s) = microsoft_client_secret s"
    and "settings_key (set_list l xs s) = settings_key s"
    by (cases l; simp)+
  ultimately show ?thesis
    using r by blast
qed

theorem mutations_frame_witness:
  "(removeItem AppTags 0 (initial_settings\<lparr>soppa_statuses := [Str (js ''S'')], app_tags := [Str (js ''T'')]\<rparr>) =
      addItem AppTags (js ''T'') (initial_settings\<lparr>soppa_statuses := [Str (js ''S'')], app_tags := [Str (js ''T'')]\<rparr>)
        (initial_settings\<lparr>soppa_statuses := [Str (js ''S'')], app_tags := [Str (js ''T'')]\<rparr>) \<or>
    removeItem AppTags 0 (initial_settings\<lparr>soppa_statuses := [Str (js ''S'')], app_tags := [Str (js ''T'')]\<rparr>) =
      removeItem AppTags 0 (initial_settings\<lparr>soppa_statuses := [Str (js ''S'')], app_tags := [Str (js ''T'')]\<rparr>) \<or>
    removeItem AppTags 0 (initial_settings\<lparr>soppa_statuses := [Str (js ''S'')], app_tags := [Str (js ''T'')]\<rparr>) =
      moveItem AppTags 0 Up (initial_settings\<lparr>soppa_statuses := [Str (js ''S'')], app_tags := [Str (js ''T'')]\<rparr>)
        (initial_settings\<lparr>soppa_statuses := [Str (js ''S'')], app_tags := [Str (js ''T'')]\<rparr>)) \<and>
   SoppaStatuses \<noteq> AppTags \<and>
   (\<exists>s'. removeItem AppTags 0 (initial_settings\<lparr>soppa_statuses := [Str (js ''S'')], app_tags := [Str (js ''T'')]\<rparr>) = Inr s' \<and>
      get_list AppTags s' = [] \<and>
      get_list SoppaStatuses s' = [Str (js ''S'')] \<and>
      get_list AppStatuses s' = [] \<and>
      allowed_domain s' = Str [] \<and>
      google_client_secret s' = Str [])"
proof -
  let ?s = "initial_settings\<lparr>soppa_statuses := [Str (js ''S'')], app_tags := [Str (js ''T'')]\<rparr>"
  have h: "removeItem AppTags 0 ?s = addItem AppTags (js ''T'') ?s ?s \<or>
           removeItem AppTags 0 ?s = removeItem AppTags 0 ?s \<or>
           removeItem AppTags 0 ?s = moveItem AppTags 0 Up ?s ?s"
    by simp
  have e: "removeItem AppTags 0 ?s = Inr (?s\<lparr>app_tags := []\<rparr>)"
    by (simp add: removeItem_eq)
  from mutations_frame [OF h] obtain s' where
    s': "removeItem AppTags 0 ?s = Inr s'"
      "\<forall>l'. l' \<noteq> AppTags \<longrightarrow> get_list l' s' = get_list l' ?s"
      "allowed_domain s' = allowed_domain ?s"
      "google_client_secret s' = google_client_secret ?s"
    by blast
  have "get_list SoppaStatuses s' = [Str (js ''S'')]" "get_list AppStatuses s' = []"
    using s'(2) [rule_format, of SoppaStatuses] s'(2) [rule_format, of AppStatuses]
    by (simp_all add: initial_settings_def)
  moreover have "allowed_domain s' = Str []" "google_client_secret s' = Str []"
    using s'(3,4) by (simp_all add: initial_settings_def)
  moreover have "get_list AppTags s' = []"
    using s'(1) e by auto
  ultimately show ?thesis
    using h s'(1) by simp
qed

section \<open>Saving\<close>

text \<open>
  C9: when the save fails, by a rejected request or by an answer whose \<open>success\<close> is
  not set, the \<open>settings\<close> state is the same before the save, at the \<open>await\<close>, and
  after it, and the page shows a message of type \<open>error\<close>.
\<close>

theorem handleSave_failure_keeps_settings:
  assumes "outcome = Throws \<or> outcome = Returns result \<and> \<not> success result"
  shows "settings (handleSave_begin p) = settings p \<and>
         settings (handleSave_settle outcome (handleSave_begin p)) = settings p \<and>
         settings (handleSave outcome p) = settings p \<and>
         message (handleSave outcome p) =
           Some (Message Error
                  (case outcome of
                     Throws \<Rightarrow> Str (js ''Network error. Please try again.'')
                   | Returns r \<Rightarrow> or_else (error r) (js ''Failed to save settings'')))"
  using assms
  by (auto simp: handleSave_def handleSave_begin_def handleSave_settle_def)

theorem handleSave_failure_keeps_settings_witness:
  "\<not> success \<lparr>success = False, error = Undefined\<rparr> \<and>
   settings (handleSave (Returns \<lparr>success = False, error = Undefined\<rparr>)
      \<lparr>isAuthorized = True, loading = False, saving = False, justSaved = False, message = None,
       settings = initial_settings\<lparr>app_tags := [Str (js ''Math'')]\<rparr>, navigated = None\<rparr>) =
     initial_settings\<lparr>app_tags := [Str (js ''Math'')]\<rparr> \<and>
   message (handleSave (Returns \<lparr>success = False, error = Undefined\<rparr>)
      \<lparr>isAuthorized = True, loading = False, saving = False, justSaved = False, message = None,
       settings = initial_settings\<lparr>app_tags := [Str (js ''Math'')]\<rparr>, navigated = None\<rparr>) =
     Some (Message Error (Str (js ''Failed to save settings''))) \<and>
   settings (handleSave Throws
      \<lparr>isAuthorized = True, loading = False, saving = False, justSaved = False, message = None,
       settings = initial_settings\<lparr>app_tags := [Str (js ''Math'')]\<rparr>, navigated = None\<rparr>) =
     initial_settings\<lparr>app_tags := [Str (js ''Math'')]\<rparr> \<and>
   message (handleSave Throws
      \<lparr>isAuthorized = True, loading = False, saving = False, justSaved = False, message = None,
       settings = initial_settings\<lparr>app_tags := [Str (js ''Math'')]\<rparr>, navigated = None\<rparr>) =
     Some (Message Error (Str (js ''Network error. Please try again.'')))"
proof -
  let ?r = "\<lparr>success = False, error = Undefined\<rparr>"
  let ?p = "\<lparr>isAuthorized = True, loading = False, saving = False, justSaved = False,
             message = None, settings = initial_settings\<lparr>app_tags := [Str (js ''Math'')]\<rparr>,
             navigated = None\<rparr>"
  have h: "Returns ?r = Throws \<or> Returns ?r = Returns ?r \<and> \<not> success ?r"
    by simp
  have t: "(Throws :: save_result awaited) = Throws \<or> Throws = Returns ?r \<and> \<not> success ?r"
    by simp
  show ?thesis
    using h handleSave_failure_keeps_settings [OF h, of ?p]
      handleSave_failure_keeps_settings [OF t, of ?p]
    by (simp add: or_else_def)
qed

section \<open>Loading\<close>

text \<open>
  C3, as the code has it: the load takes no list from the answer of the backend and
  removes no duplicates. Whatever the answer holds, \<open>getDistrictSettings\<close> supplies
  three empty lists, so after the load of an administrator each of the three lists is
  empty; when the fetch fails each list stays as it was.
\<close>

theorem load_ignores_stored_lists:
  "get_list l (merge_settings prev (getDistrictSettings (Returns district))) = [] \<and>
   get_list l (merge_settings prev (getDistrictSettings Throws)) = get_list l prev \<and>
   (authenticated u \<and> role u = Str (js ''admin'') \<longrightarrow>
      get_list l (settings (loadData (Returns u) (Returns district) p)) = [] \<and>
      get_list l (settings (loadData (Returns u) Throws p)) = get_list l (settings p))"
  by (cases l) (simp_all add: getDistrictSettings_def loadData_def)

theorem load_ignores_stored_lists_witness:
  "authenticated \<lparr>authenticated = True, role = Str (js ''admin'')\<rparr> \<and>
   role \<lparr>authenticated = True, role = Str (js ''admin'')\<rparr> = Str (js ''admin'') \<and>
   get_list AppTags
     (settings (loadData (Returns \<lparr>authenticated = True, role = Str (js ''admin'')\<rparr>)
        (Returns district_with_lists)
        \<lparr>isAuthorized = False, loading = True, saving = False, justSaved = False,
         message = None, settings = initial_settings, navigated = None\<rparr>)) = [] \<and>
   get_list AppTags
     (settings (loadData (Returns \<lparr>authenticated = True, role = Str (js ''admin'')\<rparr>)
        Throws
        \<lparr>isAuthorized = False, loading = True, saving = False, justSaved = False,
         message = None, settings = initial_settings, navigated = None\<rparr>)) =
     get_list AppTags initial_settings"
proof -
  let ?u = "\<lparr>authenticated = True, role = Str (js ''admin'')\<rparr>"
  let ?p = "\<lparr>isAuthorized = False, loading = True, saving = False, justSaved = False,
             message = None, settings = initial_settings, navigated = None\<rparr>"
  have h: "authenticated ?u \<and> role ?u = Str (js ''admin'')"
    by simp
  have "get_list AppTags (settings (loadData (Returns ?u) (Returns district_with_lists) ?p)) = [] \<and>
        get_list AppTags (settings (loadData (Returns ?u) Throws ?p)) =
          get_list AppTags (settings ?p)"
    using h load_ignores_stored_lists [of AppTags initial_settings district_with_lists ?u ?p]
    by blast
  then show ?thesis
    using h by simp
qed

text \<open>
  The claim as the specification states it fails: the answer of the backend holds
  \<open>[A, A, B]\<close> under \<open>soppa_statuses\<close>, and after the load of an administrator on the
  freshly mounted page the list is empty, not \<open>[A, B]\<close>.
\<close>

theorem load_drops_stored_list_counterexample:
  "district_with_lists ''soppa_statuses'' = Arr [Str (js ''A''), Str (js ''A''), Str (js ''B'')] \<and>
   get_list SoppaStatuses
     (settings (loadData (Returns \<lparr>authenticated = True, role = Str (js ''admin'')\<rparr>)
        (Returns district_with_lists)
        \<lparr>isAuthorized = False, loading = True, saving = False, justSaved = False,
         message = None, settings = initial_settings, navigated = None\<rparr>)) = [] \<and>
   get_list SoppaStatuses
     (settings (loadData (Returns \<lparr>authenticated = True, role = Str (js ''admin'')\<rparr>)
        (Returns district_with_lists)
        \<lparr>isAuthorized = False, loading = True, saving = False, justSaved = False,
         message = None, settings = initial_settings, navigated = None\<rparr>))
     \<noteq> [Str (js ''A''), Str (js ''B'')]"
  by (simp add: district_with_lists_def loadData_def getDistrictSettings_def)

section \<open>Secrets\<close>

text \<open>
  C1: for each of the three secret fields, \<open>GET\<close> returns the sentinel of eight
  asterisks in place of a non-empty stored value; \<open>PUT\<close> with the sentinel leaves the
  stored value, and with any other value, the empty string too, replaces it; so a
  \<open>PUT\<close> of what \<open>GET\<close> returned changes nothing.
\<close>

theorem secret_masking:
  "(stored f \<noteq> [] \<longrightarrow> get_settings stored f = masking_sentinel) \<and>
   (incoming f = masking_sentinel \<longrightarrow> put_settings incoming stored f = stored f) \<and>
   (incoming f \<noteq> masking_sentinel \<longrightarrow> put_settings incoming stored f = incoming f) \<and>
   put_settings (get_settings stored) stored f = stored f \<and>
   masking_sentinel = replicate 8 (of_char CHR ''*'')"
  by (simp add: get_settings_def put_settings_def serialize_secret_def accept_secret_def
      masking_sentinel_def js_def eval_nat_numeral)

theorem secret_masking_witness:
  "(\<lambda>f. js ''s3cret'') GoogleClientSecret \<noteq> [] \<and>
   get_settings (\<lambda>f. js ''s3cret'') GoogleClientSecret = js ''********'' \<and>
   get_settings (\<lambda>f. js ''s3cret'') GoogleClientSecret \<noteq> js ''s3cret'' \<and>
   (\<lambda>f. js ''********'') GoogleClientSecret = masking_sentinel \<and>
   put_settings (\<lambda>f. js ''********'') (\<lambda>f. js ''s3cret'') GoogleClientSecret = js ''s3cret'' \<and>
   (\<lambda>f. js ''newpass'') GoogleClientSecret \<noteq> masking_sentinel \<and>
   put_settings (\<lambda>f. js ''newpass'') (\<lambda>f. js ''s3cret'') GoogleClientSecret = js ''newpass'' \<and>
   (\<lambda>f. []) GoogleClientSecret \<noteq> masking_sentinel \<and>
   put_settings (\<lambda>f. []) (\<lambda>f. js ''s3cret'') GoogleClientSecret = []"
proof -
  let ?stored = "\<lambda>f::secret_field. js ''s3cret''"
  have h1: "?stored GoogleClientSecret \<noteq> []"
    by (simp add: js_def)
  have h2: "(\<lambda>f::secret_field. js ''********'') GoogleClientSecret = masking_sentinel"
    by (simp add: masking_sentinel_def)
  have h3: "(\<lambda>f::secret_field. js ''newpass'') GoogleClientSecret \<noteq> masking_sentinel"
    by (simp add: js_def masking_sentinel_def)
  have h4: "(\<lambda>f::secret_field. []) GoogleClientSecret \<noteq> masking_sentinel"
    by (simp add: js_def masking_sentinel_def)
  have c1: "get_settings ?stored GoogleClientSecret = masking_sentinel"
    using h1 secret_masking [of ?stored GoogleClientSecret "\<lambda>f. []"] by blast
  have c2: "put_settings (\<lambda>f. js ''********'') ?stored GoogleClientSecret = ?stored GoogleClientSecret"
    using h2 secret_masking [of ?stored GoogleClientSecret "\<lambda>f. js ''********''"] by blast
  have c3: "put_settings (\<lambda>f. js ''newpass'') ?stored GoogleClientSecret = js ''newpass''"
    using h3 secret_masking [of ?stored GoogleClientSecret "\<lambda>f. js ''newpass''"] by blast
  have c4: "put_settings (\<lambda>f. []) ?stored GoogleClientSecret = []"
    using h4 secret_masking [of ?stored GoogleClientSecret "\<lambda>f. []"] by blast
  have n: "masking_sentinel \<noteq> js ''s3cret''"
    by (simp add: masking_sentinel_def js_def)
  show ?thesis
    using h1 h2 h3 h4 c1 c2 c3 c4 n by (simp add: masking_sentinel_def)
qed

end
